theory Spec2Isabelle
  imports Main
begin

section \<open>Values, errors and notifications\<close>

text \<open>
  A question's value is typed \<open>any\<close> in the source. The model keeps the two absent values
  of JavaScript apart from a present payload: \<open>Undefined\<close> (a slot never assigned),
  \<open>Null\<close>, and \<open>Val a\<close>. For the dynamic matrix the payload is an array of row objects;
  an array is truthy even when it is empty.
\<close>

datatype 'a jsval = Undefined | Null | Val 'a

text \<open>A row object: its own enumerable properties in order, column name and cell.\<close>

type_synonym row = "(string \<times> string) list"

datatype error = AnswerRequiredError string | CustomError string

text \<open>
  What the question does to its surroundings is recorded in a trace: a callback that is
  fired, the validator chain that is run, the container validation that is asked, an
  expression runner that is constructed, the base class's condition step.
\<close>

datatype event =
    ValueChanged | ErrorsChanged | ReadOnlyChanged
  | ValidatorsRun | SurveyValidation | RunnerConstructed | BaseCondition

text \<open>
  A value-changed handler is client code. The model lets it do the one thing the
  re-entrancy flag is about: assign \<open>question.value\<close> again, any number of times, each new
  value computed from the value it reads at that moment.
\<close>

datatype 'a handler = Done | Assign "'a jsval \<Rightarrow> 'a jsval" "'a handler"

record runner =
  expression :: string

section \<open>Question\<close>

record 'a question =
  name :: string
  questionValue :: "'a jsval"
  data :: "(string \<Rightarrow> 'a jsval) option"
  survey :: "(string \<Rightarrow> error option) option"
  isRequiredValue :: bool
  readOnlyValue :: bool
  requiredErrorText :: string
  conditionEnabelRunner :: "runner option"
  errors :: "error list"
  validators :: "('a jsval \<Rightarrow> error option) list"
  valueChangedCallback :: "'a handler option"
  validateValueCallback :: "('a jsval \<Rightarrow> error option) option"
  enableIf :: string
  isvalueChangedCallbackFiring :: bool
  isValueChangedInSurvey :: bool
  trace :: "event list"

text \<open>
  \<open>new Question(name)\<close>: the field initialisers of the class. No data provider and no
  survey are attached, no callback is set, and \<open>questionValue\<close> has never been assigned.
\<close>

definition newQuestion :: "string \<Rightarrow> 'a question" where
  "newQuestion n =
     \<lparr> name = n, questionValue = Undefined, data = None, survey = None,
       isRequiredValue = False, readOnlyValue = False, requiredErrorText = [],
       conditionEnabelRunner = None, errors = [], validators = [],
       valueChangedCallback = None, validateValueCallback = None, enableIf = [],
       isvalueChangedCallbackFiring = False, isValueChangedInSurvey = False,
       trace = [] \<rparr>"

definition valueFromData :: "'a jsval \<Rightarrow> 'a jsval" where
  "valueFromData val = val"

definition valueToData :: "'a jsval \<Rightarrow> 'a jsval" where
  "valueToData val = val"

text \<open>
  Modelled from the spec: the data provider (\<open>this.data\<close>, declared in the base class) is
  not in src. The spec gives it as a plain keyed store, \<open>getValue(name)\<close> and
  \<open>setValue(name, v)\<close>, optional; without it the private slot is used.
\<close>

definition getValueCore :: "('a, 'b) question_scheme \<Rightarrow> 'a jsval" where
  "getValueCore q = (case data q of Some d \<Rightarrow> d (name q) | None \<Rightarrow> questionValue q)"

definition setValueCore :: "('a, 'b) question_scheme \<Rightarrow> 'a jsval \<Rightarrow> ('a, 'b) question_scheme" where
  "setValueCore q newValue =
     (case data q of
        Some d \<Rightarrow> q\<lparr>data := Some (d((name q) := newValue))\<rparr>
      | None \<Rightarrow> q\<lparr>questionValue := newValue\<rparr>)"

definition get_value :: "('a, 'b) question_scheme \<Rightarrow> 'a jsval" where
  "get_value q = valueFromData (getValueCore q)"

definition setNewValueInData :: "('a, 'b) question_scheme \<Rightarrow> 'a jsval \<Rightarrow> ('a, 'b) question_scheme" where
  "setNewValueInData q newValue =
     (if \<not> isValueChangedInSurvey q then setValueCore q (valueToData newValue) else q)"

definition onValueChanged :: "('a, 'b) question_scheme \<Rightarrow> ('a, 'b) question_scheme" where
  "onValueChanged q = q"

definition setNewValue :: "('a, 'b) question_scheme \<Rightarrow> 'a jsval \<Rightarrow> ('a, 'b) question_scheme" where
  "setNewValue q newValue = onValueChanged (setNewValueInData q newValue)"

text \<open>
  \<open>fireCallback\<close> of the base class is not in src; it calls the callback it is given when
  one is set. The model records each call of \<open>fireCallback\<close> in the trace, under the name
  of the callback.
\<close>

definition fireCallback :: "event \<Rightarrow> ('a, 'b) question_scheme \<Rightarrow> ('a, 'b) question_scheme" where
  "fireCallback ev q = q\<lparr>trace := trace q @ [ev]\<rparr>"

text \<open>
  The setter of \<open>value\<close>, and the handler it fires. The handler may assign \<open>value\<close> again, so
  the two call each other; the first argument bounds the depth of nested setter calls and
  \<open>None\<close> means the bound was reached.
\<close>

fun set_value :: "nat \<Rightarrow> ('a, 'b) question_scheme \<Rightarrow> 'a jsval \<Rightarrow> ('a, 'b) question_scheme option"
  and run_handler :: "nat \<Rightarrow> 'a handler \<Rightarrow> ('a, 'b) question_scheme \<Rightarrow> ('a, 'b) question_scheme option"
where
  "set_value 0 q newValue = None"
| "set_value (Suc n) q newValue =
     (let q1 = setNewValue q newValue in
      if isvalueChangedCallbackFiring q1 then Some q1
      else
        let q2 = fireCallback ValueChanged (q1\<lparr>isvalueChangedCallbackFiring := True\<rparr>) in
        case (case valueChangedCallback q2 of
                None \<Rightarrow> Some q2
              | Some h \<Rightarrow> run_handler n h q2) of
          None \<Rightarrow> None
        | Some q3 \<Rightarrow> Some (q3\<lparr>isvalueChangedCallbackFiring := False\<rparr>))"
| "run_handler n Done q = Some q"
| "run_handler n (Assign f h) q =
     (case set_value n q (f (get_value q)) of
        None \<Rightarrow> None
      | Some q' \<Rightarrow> run_handler n h q')"

subsection \<open>Validation\<close>

text \<open>
  Modelled from the spec: \<open>Base.isValueEmpty\<close> is not in src. By the spec null and
  undefined are empty; whether a present value is empty (an empty string, an empty
  sequence or mapping) is left to the parameter \<open>emp\<close>.
\<close>

definition isValueEmpty :: "('a \<Rightarrow> bool) \<Rightarrow> 'a jsval \<Rightarrow> bool" where
  "isValueEmpty emp v = (case v of Undefined \<Rightarrow> True | Null \<Rightarrow> True | Val a \<Rightarrow> emp a)"

definition isEmpty :: "('a \<Rightarrow> bool) \<Rightarrow> ('a, 'b) question_scheme \<Rightarrow> bool" where
  "isEmpty emp q = isValueEmpty emp (get_value q)"

definition isRequired :: "('a, 'b) question_scheme \<Rightarrow> bool" where
  "isRequired q = isRequiredValue q"

definition hasRequiredError :: "('a \<Rightarrow> bool) \<Rightarrow> ('a, 'b) question_scheme \<Rightarrow> bool" where
  "hasRequiredError emp q = (isRequired q \<and> isEmpty emp q)"

definition onCheckForErrors :: "('a \<Rightarrow> bool) \<Rightarrow> ('a, 'b) question_scheme \<Rightarrow> ('a, 'b) question_scheme" where
  "onCheckForErrors emp q =
     (if hasRequiredError emp q
      then q\<lparr>errors := errors q @ [AnswerRequiredError (requiredErrorText q)]\<rparr>
      else q)"

text \<open>
  Modelled from the spec: \<open>ValidatorRunner.run\<close> is not in src. By the spec it runs the
  validators in order against the current value and returns the error of the first one
  that fails, or none.
\<close>

fun ValidatorRunner_run :: "('a jsval \<Rightarrow> error option) list \<Rightarrow> 'a jsval \<Rightarrow> error option" where
  "ValidatorRunner_run [] v = None"
| "ValidatorRunner_run (f # fs) v =
     (case f v of Some e \<Rightarrow> Some e | None \<Rightarrow> ValidatorRunner_run fs v)"

definition runValidators :: "('a, 'b) question_scheme \<Rightarrow> error option \<times> ('a, 'b) question_scheme" where
  "runValidators q =
     (ValidatorRunner_run (validators q) (get_value q), q\<lparr>trace := trace q @ [ValidatorsRun]\<rparr>)"

text \<open>
  The container-level hook: \<open>validateValueCallback\<close> when it is set, else the survey's
  \<open>validateQuestion(name)\<close>. Either one is a call out of the question, recorded in the
  trace.
\<close>

definition fireSurveyValidation :: "('a, 'b) question_scheme \<Rightarrow> error option \<times> ('a, 'b) question_scheme" where
  "fireSurveyValidation q =
     ((case validateValueCallback q of
         Some f \<Rightarrow> f (get_value q)
       | None \<Rightarrow> (case survey q of Some s \<Rightarrow> s (name q) | None \<Rightarrow> None)),
      q\<lparr>trace := trace q @ [SurveyValidation]\<rparr>)"

definition checkForErrors :: "('a \<Rightarrow> bool) \<Rightarrow> bool \<Rightarrow> ('a, 'b) question_scheme \<Rightarrow> ('a, 'b) question_scheme" where
  "checkForErrors emp fire q =
     (let errorLength = length (errors q);
          q = q\<lparr>errors := []\<rparr>;
          q = onCheckForErrors emp q;
          q = (if length (errors q) = 0 \<and> \<not> isEmpty emp q then
                 (case runValidators q of
                    (Some error, q') \<Rightarrow> q'\<lparr>errors := errors q' @ [error]\<rparr>
                  | (None, q') \<Rightarrow> q')
               else q);
          q = (if survey q \<noteq> None \<and> length (errors q) = 0 then
                 (case fireSurveyValidation q of
                    (Some error, q') \<Rightarrow> q'\<lparr>errors := errors q' @ [error]\<rparr>
                  | (None, q') \<Rightarrow> q')
               else q)
      in if fire \<and> (errorLength \<noteq> length (errors q) \<or> errorLength > 0)
         then fireCallback ErrorsChanged q else q)"

definition hasErrors :: "('a \<Rightarrow> bool) \<Rightarrow> bool \<Rightarrow> ('a, 'b) question_scheme \<Rightarrow> bool \<times> ('a, 'b) question_scheme" where
  "hasErrors emp fire q =
     (let q' = checkForErrors emp fire q in (length (errors q') > 0, q'))"

subsection \<open>Conditional enabling\<close>

definition readOnly :: "('a, 'b) question_scheme \<Rightarrow> bool" where
  "readOnly q = readOnlyValue q"

definition onReadOnlyChanged :: "('a, 'b) question_scheme \<Rightarrow> ('a, 'b) question_scheme" where
  "onReadOnlyChanged q = fireCallback ReadOnlyChanged q"

definition set_readOnly :: "bool \<Rightarrow> ('a, 'b) question_scheme \<Rightarrow> ('a, 'b) question_scheme" where
  "set_readOnly v q =
     (if readOnly q = v then q else onReadOnlyChanged (q\<lparr>readOnlyValue := v\<rparr>))"

text \<open>
  Modelled from the spec: \<open>QuestionBase.runCondition\<close> is not in src. The spec names it
  the base visibility condition, an external step; the model records that it ran and
  lets it touch no field of \<open>Question\<close>.
\<close>

definition super_runCondition :: "'h \<Rightarrow> ('a, 'b) question_scheme \<Rightarrow> ('a, 'b) question_scheme" where
  "super_runCondition values q = q\<lparr>trace := trace q @ [BaseCondition]\<rparr>"

text \<open>
  \<open>ConditionRunner\<close> is not in src: a runner holds its expression text, and \<open>run\<close>
  evaluates that text against the values. The evaluation is the parameter \<open>run\<close>.
  An empty \<open>enableIf\<close> is falsy.
\<close>

definition runCondition :: "(string \<Rightarrow> 'h \<Rightarrow> bool) \<Rightarrow> 'h \<Rightarrow> ('a, 'b) question_scheme \<Rightarrow> ('a, 'b) question_scheme" where
  "runCondition run values q =
     (let q = super_runCondition values q in
      if enableIf q = [] then q
      else
        let (r, q) = (case conditionEnabelRunner q of
                        None \<Rightarrow> (\<lparr>expression = enableIf q\<rparr>,
                                 q\<lparr>trace := trace q @ [RunnerConstructed]\<rparr>)
                      | Some r \<Rightarrow> (r, q));
            r = r\<lparr>expression := enableIf q\<rparr>;
            q = q\<lparr>conditionEnabelRunner := Some r\<rparr>
        in set_readOnly (\<not> run (expression r) values) q)"

text \<open>
  A client that, any number of times, assigns \<open>enableIf\<close> and then calls \<open>runCondition\<close>.
\<close>

fun runConditions :: "(string \<Rightarrow> 'h \<Rightarrow> bool) \<Rightarrow> (string \<times> 'h) list \<Rightarrow> ('a, 'b) question_scheme \<Rightarrow> ('a, 'b) question_scheme" where
  "runConditions run [] q = q"
| "runConditions run ((e, values) # rest) q =
     runConditions run rest (runCondition run values (q\<lparr>enableIf := e\<rparr>))"

section \<open>Dynamic matrix question\<close>

record row_model =
  index :: int
  rowValue :: "row option"

record matrix = "row list question" +
  rowCounter :: int
  rowCountValue :: int

definition MaxRowCount :: int where
  "MaxRowCount = 100"

text \<open>
  \<open>new QuestionMatrixDynamicModel(name)\<close>: the fields of \<open>Question\<close> as above,
  \<open>rowCounter = 0\<close> and \<open>rowCountValue = 2\<close>.
\<close>

definition newMatrix :: "string \<Rightarrow> matrix" where
  "newMatrix n =
     \<lparr> name = n, questionValue = Undefined, data = None, survey = None,
       isRequiredValue = False, readOnlyValue = False, requiredErrorText = [],
       conditionEnabelRunner = None, errors = [], validators = [],
       valueChangedCallback = None, validateValueCallback = None, enableIf = [],
       isvalueChangedCallbackFiring = False, isValueChangedInSurvey = False,
       trace = [], rowCounter = 0, rowCountValue = 2 \<rparr>"

definition rowCount :: "'b matrix_scheme \<Rightarrow> int" where
  "rowCount q = rowCountValue q"

definition set_rowCount :: "int \<Rightarrow> 'b matrix_scheme \<Rightarrow> 'b matrix_scheme" where
  "set_rowCount val q =
     (if val < 0 \<or> val > MaxRowCount then q else q\<lparr>rowCountValue := val\<rparr>)"

definition addRow :: "'b matrix_scheme \<Rightarrow> 'b matrix_scheme" where
  "addRow q = set_rowCount (rowCount q + 1) q"

text \<open>
  \<open>Array.prototype.splice\<close> as the matrix uses it. A negative start counts from the end,
  a start past the end is the end. \<open>splice_from start\<close> is \<open>splice(start)\<close>: it removes
  every entry from \<open>start\<close> on. \<open>splice_one start\<close> is \<open>splice(start, 1)\<close>.
\<close>

definition splice_start :: "int \<Rightarrow> 'a list \<Rightarrow> nat" where
  "splice_start start xs =
     (let len = int (length xs)
      in nat (if start < 0 then max (len + start) 0 else min start len))"

definition splice_from :: "int \<Rightarrow> 'a list \<Rightarrow> 'a list" where
  "splice_from start xs = take (splice_start start xs) xs"

definition splice_one :: "int \<Rightarrow> 'a list \<Rightarrow> 'a list" where
  "splice_one start xs =
     take (splice_start start xs) xs @ drop (splice_start start xs + 1) xs"

definition truthy :: "'a list jsval \<Rightarrow> bool" where
  "truthy v = (case v of Undefined \<Rightarrow> False | Null \<Rightarrow> False | Val xs \<Rightarrow> True)"

text \<open>The loop of \<open>createNewValue\<close>: \<open>i\<close> starts at the length and follows it.\<close>

function pushEmpty :: "int \<Rightarrow> row list \<Rightarrow> row list" where
  "pushEmpty rc result =
     (if int (length result) < rc then pushEmpty rc (result @ [[]]) else result)"
  by pat_completeness auto
termination
  by (relation "measure (\<lambda>(rc, result). nat (rc - int (length result)))") auto

definition createNewValue :: "'b matrix_scheme \<Rightarrow> row list jsval \<Rightarrow> row list" where
  "createNewValue q curValue =
     (let result = (case curValue of Val xs \<Rightarrow> xs | _ \<Rightarrow> []);
          result = (if int (length result) > rowCount q
                    then splice_from (rowCount q - 1) result else result)
      in pushEmpty (rowCount q) result)"

text \<open>
  \<open>createNewValue\<close> works on the array it is given: when the backing value is an array,
  \<open>splice\<close> and \<open>push\<close> change the stored array itself. \<open>storeInPlace\<close> writes that
  change back; an absent backing value is left as it is, the result is a new array.
\<close>

definition storeInPlace :: "'b matrix_scheme \<Rightarrow> row list \<Rightarrow> 'b matrix_scheme" where
  "storeInPlace q val = (if truthy (get_value q) then setValueCore q (Val val) else q)"

fun deleteRowValue_isEmpty :: "row list \<Rightarrow> bool" where
  "deleteRowValue_isEmpty [] = True"
| "deleteRowValue_isEmpty (r # rs) =
     (if length (map fst r) > 0 then False else deleteRowValue_isEmpty rs)"

definition deleteRowValue :: "row list \<Rightarrow> row list jsval" where
  "deleteRowValue newValue = (if deleteRowValue_isEmpty newValue then Null else Val newValue)"

definition removeRow :: "nat \<Rightarrow> int \<Rightarrow> 'b matrix_scheme \<Rightarrow> 'b matrix_scheme option" where
  "removeRow fuel idx q =
     (if idx < 0 \<or> idx \<ge> rowCount q then Some q
      else
        case (if truthy (get_value q) then
                let val = createNewValue q (get_value q);
                    val = splice_one idx val;
                    q1 = storeInPlace q val
                in set_value fuel q1 (deleteRowValue val)
              else Some q) of
          None \<Rightarrow> None
        | Some q2 \<Rightarrow> Some (set_rowCount (rowCount q2 - 1) q2))"

definition getRowValueByIndex :: "row list \<Rightarrow> int \<Rightarrow> row option" where
  "getRowValueByIndex qValue i =
     (if i \<ge> 0 \<and> i < int (length qValue) then Some (qValue ! nat i) else None)"

definition createMatrixRow :: "'b matrix_scheme \<Rightarrow> row option \<Rightarrow> row_model \<times> 'b matrix_scheme" where
  "createMatrixRow q v =
     (\<lparr> index = rowCounter q, rowValue = v \<rparr>, q\<lparr>rowCounter := rowCounter q + 1\<rparr>)"

function generateRows_loop ::
  "int \<Rightarrow> row list \<Rightarrow> row_model list \<Rightarrow> 'b matrix_scheme \<Rightarrow> row_model list \<times> 'b matrix_scheme"
where
  "generateRows_loop i val result q =
     (if i < rowCount q then
        (case createMatrixRow q (getRowValueByIndex val i) of
           (r, q') \<Rightarrow> generateRows_loop (i + 1) val (result @ [r]) q')
      else (result, q))"
  by pat_completeness auto
termination
  by (relation "measure (\<lambda>(i, val, result, q). nat (rowCount q - i))")
     (auto simp: createMatrixRow_def rowCount_def)

definition generateRows :: "'b matrix_scheme \<Rightarrow> row_model list \<times> 'b matrix_scheme" where
  "generateRows q =
     (if rowCount q = 0 then ([], q)
      else
        let val = createNewValue q (get_value q);
            q1 = storeInPlace q val
        in generateRows_loop 0 val [] q1)"

declare pushEmpty.simps [simp del]
declare generateRows_loop.simps [simp del]

section \<open>Properties of the question\<close>

lemma setNewValue_frame [simp]:
  "isvalueChangedCallbackFiring (setNewValue q v) = isvalueChangedCallbackFiring q"
  "trace (setNewValue q v) = trace q"
  "valueChangedCallback (setNewValue q v) = valueChangedCallback q"
  by (simp_all add: setNewValue_def onValueChanged_def setNewValueInData_def setValueCore_def
           split: option.splits)

lemma set_value_firing:
  "isvalueChangedCallbackFiring q \<Longrightarrow> set_value (Suc n) q v = Some (setNewValue q v)"
  by (simp add: Let_def)

lemma run_handler_firing:
  "isvalueChangedCallbackFiring q \<Longrightarrow>
   \<exists>q'. run_handler (Suc n) h q = Some q' \<and> isvalueChangedCallbackFiring q' \<and>
        trace q' = trace q \<and> valueChangedCallback q' = valueChangedCallback q"
proof (induction h arbitrary: q)
  case Done
  then show ?case by simp
next
  case (Assign f h)
  let ?q1 = "setNewValue q (f (get_value q))"
  have s: "set_value (Suc n) q (f (get_value q)) = Some ?q1"
    using Assign.prems by (rule set_value_firing)
  have "isvalueChangedCallbackFiring ?q1" using Assign.prems by simp
  from Assign.IH [OF this] obtain q' where
    "run_handler (Suc n) h ?q1 = Some q'" "isvalueChangedCallbackFiring q'"
    "trace q' = trace ?q1" "valueChangedCallback q' = valueChangedCallback ?q1"
    by blast
  then show ?case using s by (simp del: set_value.simps)
qed

text \<open>
  Claim C4. An assignment to \<open>value\<close> made outside of a notification (the flag is down)
  returns, whatever the handler does and with any depth bound of two or more; it fires the
  value-changed callback exactly once, so at most once, also when the handler assigns
  \<open>value\<close> again during the notification; and it leaves the flag down.
\<close>

theorem value_setter_fires_once:
  assumes "\<not> isvalueChangedCallbackFiring q"
  shows "\<exists>q'. set_value (Suc (Suc n)) q v = Some q' \<and>
           trace q' = trace q @ [ValueChanged] \<and>
           count_list (trace q') ValueChanged = count_list (trace q) ValueChanged + 1 \<and>
           \<not> isvalueChangedCallbackFiring q'"
proof -
  let ?q1 = "setNewValue q v"
  let ?q2 = "fireCallback ValueChanged (?q1\<lparr>isvalueChangedCallbackFiring := True\<rparr>)"
  have f1: "\<not> isvalueChangedCallbackFiring ?q1" using assms by simp
  have f2: "isvalueChangedCallbackFiring ?q2" by (simp add: fireCallback_def)
  have t2: "trace ?q2 = trace q @ [ValueChanged]" by (simp add: fireCallback_def)
  show ?thesis
  proof (cases "valueChangedCallback ?q2")
    case None
    then show ?thesis using f1 t2
      by (simp add: Let_def del: run_handler.simps)
  next
    case (Some h)
    from run_handler_firing [OF f2, of n h] obtain q3 where
      r: "run_handler (Suc n) h ?q2 = Some q3" and "trace q3 = trace ?q2"
      by blast
    then show ?thesis using f1 t2 Some
      by (simp add: Let_def del: run_handler.simps)
  qed
qed

theorem value_setter_fires_once_witness:
  "\<not> isvalueChangedCallbackFiring
       ((newQuestion ''q1'' :: nat question)\<lparr>valueChangedCallback := Some (Assign (\<lambda>v. Val 7) Done)\<rparr>) \<and>
   (\<exists>q'. set_value (Suc (Suc 0))
            ((newQuestion ''q1'' :: nat question)\<lparr>valueChangedCallback := Some (Assign (\<lambda>v. Val 7) Done)\<rparr>)
            (Val 1) = Some q' \<and>
         trace q' = [ValueChanged] \<and> get_value q' = Val 7 \<and> \<not> isvalueChangedCallbackFiring q')"
proof -
  let ?q = "(newQuestion ''q1'' :: nat question)\<lparr>valueChangedCallback := Some (Assign (\<lambda>v. Val 7) Done)\<rparr>"
  have h: "\<not> isvalueChangedCallbackFiring ?q" by (simp add: newQuestion_def)
  from value_setter_fires_once [OF h, of 0 "Val 1"] obtain q' where
    q': "set_value (Suc (Suc 0)) ?q (Val 1) = Some q'" "trace q' = trace ?q @ [ValueChanged]"
        "\<not> isvalueChangedCallbackFiring q'"
    by blast
  have "set_value (Suc (Suc 0)) ?q (Val 1) =
          Some (?q\<lparr>questionValue := Val 7, trace := [ValueChanged]\<rparr>)"
    by (simp add: newQuestion_def Let_def setNewValue_def onValueChanged_def setNewValueInData_def
          setValueCore_def valueToData_def fireCallback_def get_value_def getValueCore_def
          valueFromData_def)
  with q' have "get_value q' = Val 7" "trace q' = [ValueChanged]"
    by (auto simp: newQuestion_def get_value_def getValueCore_def valueFromData_def)
  with q' h show ?thesis by blast
qed

lemma get_value_frame [simp]:
  "get_value (q\<lparr>errors := es\<rparr>) = get_value q"
  "get_value (q\<lparr>trace := t\<rparr>) = get_value q"
  by (simp_all add: get_value_def getValueCore_def split: option.splits)

lemma isEmpty_frame [simp]:
  "isEmpty emp (q\<lparr>errors := es\<rparr>) = isEmpty emp q"
  "isEmpty emp (q\<lparr>trace := t\<rparr>) = isEmpty emp q"
  by (simp_all add: isEmpty_def)

lemma validators_frame:
  "validators (q\<lparr>errors := es\<rparr>) = validators q"
  by simp

lemma onCheckForErrors_required:
  "isRequired q \<Longrightarrow> isEmpty emp q \<Longrightarrow>
   onCheckForErrors emp (q\<lparr>errors := []\<rparr>) =
     q\<lparr>errors := [AnswerRequiredError (requiredErrorText q)]\<rparr>"
  by (simp add: onCheckForErrors_def hasRequiredError_def isRequired_def)

lemma onCheckForErrors_not_required:
  "\<not> (isRequired q \<and> isEmpty emp q) \<Longrightarrow> onCheckForErrors emp (q\<lparr>errors := []\<rparr>) = q\<lparr>errors := []\<rparr>"
  by (simp add: onCheckForErrors_def hasRequiredError_def isRequired_def)

lemma checkForErrors_required:
  assumes "isRequired q" and "isEmpty emp q"
  shows "errors (checkForErrors emp fire q) = [AnswerRequiredError (requiredErrorText q)]"
    and "count_list (trace (checkForErrors emp fire q)) ValidatorsRun = count_list (trace q) ValidatorsRun"
    and "count_list (trace (checkForErrors emp fire q)) SurveyValidation = count_list (trace q) SurveyValidation"
  using assms by (simp_all add: checkForErrors_def Let_def onCheckForErrors_required fireCallback_def)

text \<open>
  Claim C2. For a question with \<open>isRequired\<close> true and an empty value, \<open>hasErrors\<close> returns
  true and leaves exactly one error, the required error; the validator chain is not run
  and the container-level hook is not invoked.
\<close>

theorem required_empty:
  assumes "isRequired q" and "isEmpty emp q"
  shows "fst (hasErrors emp fire q) \<and>
         errors (snd (hasErrors emp fire q)) = [AnswerRequiredError (requiredErrorText q)] \<and>
         count_list (trace (snd (hasErrors emp fire q))) ValidatorsRun = count_list (trace q) ValidatorsRun \<and>
         count_list (trace (snd (hasErrors emp fire q))) SurveyValidation = count_list (trace q) SurveyValidation"
  using checkForErrors_required [OF assms, of fire] by (simp add: hasErrors_def Let_def)



theorem required_empty_witness:
  "isRequired ((newQuestion ''q1'' :: nat question)
       \<lparr>isRequiredValue := True, validators := [\<lambda>v. Some (CustomError ''v'')],
        survey := Some (\<lambda>n. Some (CustomError ''s''))\<rparr>) \<and>
   isEmpty (\<lambda>n. n = 0) ((newQuestion ''q1'' :: nat question)
       \<lparr>isRequiredValue := True, validators := [\<lambda>v. Some (CustomError ''v'')],
        survey := Some (\<lambda>n. Some (CustomError ''s''))\<rparr>) \<and>
   fst (hasErrors (\<lambda>n. n = 0) True ((newQuestion ''q1'' :: nat question)
       \<lparr>isRequiredValue := True, validators := [\<lambda>v. Some (CustomError ''v'')],
        survey := Some (\<lambda>n. Some (CustomError ''s''))\<rparr>)) \<and>
   errors (snd (hasErrors (\<lambda>n. n = 0) True ((newQuestion ''q1'' :: nat question)
       \<lparr>isRequiredValue := True, validators := [\<lambda>v. Some (CustomError ''v'')],
        survey := Some (\<lambda>n. Some (CustomError ''s''))\<rparr>))) = [AnswerRequiredError []]"
proof -
  let ?q = "(newQuestion ''q1'' :: nat question)
       \<lparr>isRequiredValue := True, validators := [\<lambda>v. Some (CustomError ''v'')],
        survey := Some (\<lambda>n. Some (CustomError ''s''))\<rparr>"
  have h1: "isRequired ?q" by (simp add: isRequired_def)
  have h2: "isEmpty (\<lambda>n. n = 0) ?q"
    by (simp add: isEmpty_def isValueEmpty_def get_value_def getValueCore_def valueFromData_def
          newQuestion_def)
  have "requiredErrorText ?q = []" by (simp add: newQuestion_def)
  then show ?thesis using h1 h2 required_empty [OF h1 h2, of True] by simp
qed

lemma runValidators_frame [simp]:
  "fst (runValidators (q\<lparr>errors := es\<rparr>)) = fst (runValidators q)"
  "snd (runValidators q) = q\<lparr>trace := trace q @ [ValidatorsRun]\<rparr>"
  by (simp_all add: runValidators_def)

lemma fireSurveyValidation_frame [simp]:
  "fst (fireSurveyValidation (q\<lparr>errors := es\<rparr>)) = fst (fireSurveyValidation q)"
  "fst (fireSurveyValidation (q\<lparr>trace := t\<rparr>)) = fst (fireSurveyValidation q)"
  "snd (fireSurveyValidation q) = q\<lparr>trace := trace q @ [SurveyValidation]\<rparr>"
  by (simp_all add: fireSurveyValidation_def split: option.splits)

lemma checkForErrors_unfold:
  "checkForErrors emp fire q =
     (let req = hasRequiredError emp q;
          ranV = (\<not> req \<and> \<not> isEmpty emp q);
          v = (if ranV then fst (runValidators q) else None);
          ranS = (\<not> req \<and> v = None \<and> survey q \<noteq> None);
          s = (if ranS then fst (fireSurveyValidation q) else None);
          es = (if req then [AnswerRequiredError (requiredErrorText q)]
                else case v of Some e \<Rightarrow> [e] | None \<Rightarrow> (case s of Some e \<Rightarrow> [e] | None \<Rightarrow> []))
      in q\<lparr>errors := es,
           trace := trace q @ (if ranV then [ValidatorsRun] else [])
                            @ (if ranS then [SurveyValidation] else [])
                            @ (if fire \<and> (length (errors q) \<noteq> length es \<or> length (errors q) > 0)
                               then [ErrorsChanged] else [])\<rparr>)"
proof (cases "hasRequiredError emp q")
  case True
  then show ?thesis
    by (auto simp: checkForErrors_def Let_def onCheckForErrors_def hasRequiredError_def
          isRequired_def fireCallback_def)
next
  case req: False
  then have o: "onCheckForErrors emp (q\<lparr>errors := []\<rparr>) = q\<lparr>errors := []\<rparr>"
    by (simp add: onCheckForErrors_def hasRequiredError_def isRequired_def)
  show ?thesis
  proof (cases "\<not> isEmpty emp q \<and> fst (runValidators q) \<noteq> None")
    case True
    then obtain e where e: "fst (runValidators q) = Some e" by blast
    then have r: "runValidators (q\<lparr>errors := []\<rparr>) =
        (Some e, q\<lparr>errors := [], trace := trace q @ [ValidatorsRun]\<rparr>)"
      by (simp add: runValidators_def)
    show ?thesis using True req e
      by (auto simp: checkForErrors_def Let_def o r fireCallback_def)
  next
    case False
    let ?q1 = "if isEmpty emp q then q\<lparr>errors := []\<rparr>
               else q\<lparr>errors := [], trace := trace q @ [ValidatorsRun]\<rparr>"
    have r: "\<not> isEmpty emp q \<Longrightarrow> runValidators (q\<lparr>errors := []\<rparr>) =
        (None, q\<lparr>errors := [], trace := trace q @ [ValidatorsRun]\<rparr>)"
      using False by (simp add: runValidators_def)
    show ?thesis
    proof (cases "survey q")
      case None
      then show ?thesis using False req
        by (cases "isEmpty emp q") (auto simp: checkForErrors_def Let_def o r fireCallback_def)
    next
      case (Some sv)
      show ?thesis
      proof (cases "isEmpty emp q")
        case True
        then show ?thesis using req Some
          by (auto simp: checkForErrors_def Let_def o fireCallback_def fireSurveyValidation_def
                   split: option.splits cong: option.case_cong)
      next
        case ne: False
        then show ?thesis using False req Some
          by (auto simp: checkForErrors_def Let_def o r fireCallback_def fireSurveyValidation_def
                   split: option.splits cong: option.case_cong)
      qed
    qed
  qed
qed

text \<open>
  Claim C3. When the value is not empty and the validator chain gives an error,
  \<open>hasErrors\<close> returns true, leaves exactly that one error, and the container-level hook
  is not invoked. In general an error check leaves at most one error: the required error
  if the question is required and empty; else the validators' error if the value is not
  empty and they give one; else the hook's error if a survey is attached and the hook gives
  one; else none. The calls out of the question follow the same order: the validators are
  run only without a required error and on a non-empty value, the hook is invoked only
  when neither of the two gave an error and a survey is attached.
\<close>

theorem checkForErrors_first_match:
  "(\<not> isEmpty emp q \<and> fst (runValidators q) = Some e \<longrightarrow>
      fst (hasErrors emp fire q) \<and>
      errors (snd (hasErrors emp fire q)) = [e] \<and>
      count_list (trace (snd (hasErrors emp fire q))) SurveyValidation =
        count_list (trace q) SurveyValidation) \<and>
   length (errors (checkForErrors emp fire q)) \<le> 1 \<and>
   errors (checkForErrors emp fire q) =
     (if hasRequiredError emp q then [AnswerRequiredError (requiredErrorText q)]
      else case (if isEmpty emp q then None else fst (runValidators q)) of
             Some e \<Rightarrow> [e]
           | None \<Rightarrow> (case (if survey q = None then None else fst (fireSurveyValidation q)) of
                        Some e \<Rightarrow> [e]
                      | None \<Rightarrow> [])) \<and>
   filter (\<lambda>ev. ev \<noteq> ErrorsChanged) (drop (length (trace q)) (trace (checkForErrors emp fire q))) =
     (if \<not> hasRequiredError emp q \<and> \<not> isEmpty emp q then [ValidatorsRun] else []) @
     (if \<not> hasRequiredError emp q \<and> (isEmpty emp q \<or> fst (runValidators q) = None) \<and> survey q \<noteq> None
      then [SurveyValidation] else [])"
proof -
  have ne: "\<not> isEmpty emp q \<Longrightarrow> \<not> hasRequiredError emp q"
    by (simp add: hasRequiredError_def)
  have a: "\<not> isEmpty emp q \<and> fst (runValidators q) = Some e \<longrightarrow>
      fst (hasErrors emp fire q) \<and>
      errors (snd (hasErrors emp fire q)) = [e] \<and>
      count_list (trace (snd (hasErrors emp fire q))) SurveyValidation =
        count_list (trace q) SurveyValidation"
    using ne by (simp add: hasErrors_def checkForErrors_unfold Let_def)
  have b: "length (errors (checkForErrors emp fire q)) \<le> 1"
    by (simp add: checkForErrors_unfold Let_def split: option.splits)
  have c: "errors (checkForErrors emp fire q) =
     (if hasRequiredError emp q then [AnswerRequiredError (requiredErrorText q)]
      else case (if isEmpty emp q then None else fst (runValidators q)) of
             Some e \<Rightarrow> [e]
           | None \<Rightarrow> (case (if survey q = None then None else fst (fireSurveyValidation q)) of
                        Some e \<Rightarrow> [e]
                      | None \<Rightarrow> []))"
    by (simp add: checkForErrors_unfold Let_def split: option.splits)
  have d: "filter (\<lambda>ev. ev \<noteq> ErrorsChanged) (drop (length (trace q)) (trace (checkForErrors emp fire q))) =
     (if \<not> hasRequiredError emp q \<and> \<not> isEmpty emp q then [ValidatorsRun] else []) @
     (if \<not> hasRequiredError emp q \<and> (isEmpty emp q \<or> fst (runValidators q) = None) \<and> survey q \<noteq> None
      then [SurveyValidation] else [])"
    by (simp add: checkForErrors_unfold Let_def)
  show ?thesis using a b c d by blast
qed

theorem checkForErrors_first_match_witness:
  "\<not> isEmpty (\<lambda>n. n = 0) ((newQuestion ''q1'' :: nat question)
       \<lparr>questionValue := Val 5, validators := [\<lambda>v. None, \<lambda>v. Some (CustomError ''v'')],
        survey := Some (\<lambda>n. Some (CustomError ''s''))\<rparr>) \<and>
   fst (runValidators ((newQuestion ''q1'' :: nat question)
       \<lparr>questionValue := Val 5, validators := [\<lambda>v. None, \<lambda>v. Some (CustomError ''v'')],
        survey := Some (\<lambda>n. Some (CustomError ''s''))\<rparr>)) = Some (CustomError ''v'') \<and>
   errors (snd (hasErrors (\<lambda>n. n = 0) True ((newQuestion ''q1'' :: nat question)
       \<lparr>questionValue := Val 5, validators := [\<lambda>v. None, \<lambda>v. Some (CustomError ''v'')],
        survey := Some (\<lambda>n. Some (CustomError ''s''))\<rparr>))) = [CustomError ''v''] \<and>
   count_list (trace (snd (hasErrors (\<lambda>n. n = 0) True ((newQuestion ''q1'' :: nat question)
       \<lparr>questionValue := Val 5, validators := [\<lambda>v. None, \<lambda>v. Some (CustomError ''v'')],
        survey := Some (\<lambda>n. Some (CustomError ''s''))\<rparr>)))) SurveyValidation = 0"
proof -
  define q where "q = (newQuestion ''q1'' :: nat question)
       \<lparr>questionValue := Val 5, validators := [\<lambda>v. None, \<lambda>v. Some (CustomError ''v'')],
        survey := Some (\<lambda>n. Some (CustomError ''s''))\<rparr>"
  have h1: "\<not> isEmpty (\<lambda>n. n = 0) q"
    by (simp add: q_def isEmpty_def isValueEmpty_def get_value_def getValueCore_def valueFromData_def
          newQuestion_def)
  have h2: "fst (runValidators q) = Some (CustomError ''v'')"
    by (simp add: q_def runValidators_def)
  have t: "count_list (trace q) SurveyValidation = 0" by (simp add: q_def newQuestion_def)
  have w: "fst (hasErrors (\<lambda>n. n = 0) True q) \<and>
      errors (snd (hasErrors (\<lambda>n. n = 0) True q)) = [CustomError ''v''] \<and>
      count_list (trace (snd (hasErrors (\<lambda>n. n = 0) True q))) SurveyValidation =
        count_list (trace q) SurveyValidation"
    using checkForErrors_first_match [of "\<lambda>n. n = 0" q "CustomError ''v''" True] h1 h2
    by blast
  have "\<not> isEmpty (\<lambda>n. n = 0) q \<and> fst (runValidators q) = Some (CustomError ''v'') \<and>
    errors (snd (hasErrors (\<lambda>n. n = 0) True q)) = [CustomError ''v''] \<and>
    count_list (trace (snd (hasErrors (\<lambda>n. n = 0) True q))) SurveyValidation = 0"
    using h1 h2 w t by presburger
  then show ?thesis unfolding q_def .
qed

lemmas cond_defs = runCondition_def super_runCondition_def set_readOnly_def readOnly_def
  onReadOnlyChanged_def fireCallback_def Let_def

lemma runCondition_runner:
  "count_list (trace (runCondition run values q)) RunnerConstructed =
     count_list (trace q) RunnerConstructed +
       (if enableIf q \<noteq> [] \<and> conditionEnabelRunner q = None then 1 else 0)"
  "conditionEnabelRunner q \<noteq> None \<Longrightarrow> conditionEnabelRunner (runCondition run values q) \<noteq> None"
  "enableIf q \<noteq> [] \<Longrightarrow> conditionEnabelRunner (runCondition run values q) \<noteq> None"
  by (auto simp: cond_defs split: option.splits prod.splits)

lemma runConditions_runner:
  "count_list (trace (runConditions run steps q)) RunnerConstructed \<le>
     count_list (trace q) RunnerConstructed + (if conditionEnabelRunner q = None then 1 else 0)"
proof (induction steps arbitrary: q)
  case Nil
  then show ?case by simp
next
  case (Cons s steps)
  obtain e vals where s: "s = (e, vals)" by (cases s)
  let ?q0 = "q\<lparr>enableIf := e\<rparr>"
  let ?q1 = "runCondition run vals ?q0"
  have c: "count_list (trace ?q1) RunnerConstructed =
     count_list (trace q) RunnerConstructed +
       (if e \<noteq> [] \<and> conditionEnabelRunner q = None then 1 else 0)"
    using runCondition_runner(1) [of run vals ?q0] by simp
  have k: "conditionEnabelRunner q \<noteq> None \<Longrightarrow> conditionEnabelRunner ?q1 \<noteq> None"
    using runCondition_runner(2) [of ?q0 run vals] by simp
  have k2: "e \<noteq> [] \<Longrightarrow> conditionEnabelRunner ?q1 \<noteq> None"
    using runCondition_runner(3) [of ?q0 run vals] by simp
  show ?case using Cons.IH [of ?q1] c k k2 unfolding s
    by (auto split: if_splits)
qed

text \<open>
  Claim C7. With an empty \<open>enableIf\<close>, \<open>runCondition\<close> leaves \<open>readOnly\<close> and the runner as
  they are and only runs the base condition. With a non-empty \<open>enableIf\<close> it sets
  \<open>readOnly\<close> to the negation of the expression's result on the values, the runner then
  holds the current \<open>enableIf\<close>, and a runner is constructed only when there was none. So
  over any sequence of \<open>enableIf\<close> assignments and \<open>runCondition\<close> calls on a question that
  starts without a runner, at most one runner is ever constructed.
\<close>

theorem runCondition_enableIf:
  "(enableIf q = [] \<longrightarrow>
      readOnly (runCondition run vals q) = readOnly q \<and>
      conditionEnabelRunner (runCondition run vals q) = conditionEnabelRunner q \<and>
      trace (runCondition run vals q) = trace q @ [BaseCondition]) \<and>
   (enableIf q \<noteq> [] \<longrightarrow>
      readOnly (runCondition run vals q) = (\<not> run (enableIf q) vals) \<and>
      map_option expression (conditionEnabelRunner (runCondition run vals q)) = Some (enableIf q) \<and>
      count_list (trace (runCondition run vals q)) RunnerConstructed =
        count_list (trace q) RunnerConstructed + (if conditionEnabelRunner q = None then 1 else 0)) \<and>
   (conditionEnabelRunner q = None \<and> count_list (trace q) RunnerConstructed = 0 \<longrightarrow>
      count_list (trace (runConditions run steps q)) RunnerConstructed \<le> 1)"
proof (intro conjI impI)
  assume "conditionEnabelRunner q = None \<and> count_list (trace q) RunnerConstructed = 0"
  then show "count_list (trace (runConditions run steps q)) RunnerConstructed \<le> 1"
    using runConditions_runner [of run steps q] by simp
qed (auto simp: cond_defs split: option.splits prod.splits)

theorem runCondition_enableIf_witness:
  "enableIf ((newQuestion ''q1'' :: nat question)\<lparr>readOnlyValue := True\<rparr>) = [] \<and>
   readOnly (runCondition (\<lambda>e v. v) True ((newQuestion ''q1'' :: nat question)\<lparr>readOnlyValue := True\<rparr>)) \<and>
   enableIf ((newQuestion ''q1'' :: nat question)\<lparr>enableIf := ''{a} > 1''\<rparr>) \<noteq> [] \<and>
   readOnly (runCondition (\<lambda>e v. v) False ((newQuestion ''q1'' :: nat question)\<lparr>enableIf := ''{a} > 1''\<rparr>)) \<and>
   count_list (trace (runConditions (\<lambda>e v. v) [(''{a} > 1'', True), ([], True), (''{b} > 1'', False)]
                        (newQuestion ''q1'' :: nat question))) RunnerConstructed \<le> 1"
proof -
  define qa where "qa = (newQuestion ''q1'' :: nat question)\<lparr>readOnlyValue := True\<rparr>"
  define qb where "qb = (newQuestion ''q1'' :: nat question)\<lparr>enableIf := ''{a} > 1''\<rparr>"
  define qc where "qc = (newQuestion ''q1'' :: nat question)"
  define run where "run = (\<lambda>(e::string) (v::bool). v)"
  define steps where "steps = [(''{a} > 1'', True), ([], True), (''{b} > 1'', False)]"
  have a: "enableIf qa = []" and a': "readOnly qa"
    by (simp_all add: qa_def newQuestion_def readOnly_def)
  have b: "enableIf qb \<noteq> []" by (simp add: qb_def)
  have c: "conditionEnabelRunner qc = None \<and> count_list (trace qc) RunnerConstructed = 0"
    by (simp add: qc_def newQuestion_def)
  have ra: "readOnly (runCondition run True qa) = readOnly qa"
    using runCondition_enableIf [of qa run True steps] a by blast
  have rb: "readOnly (runCondition run False qb) = (\<not> run (enableIf qb) False)"
    using runCondition_enableIf [of qb run False steps] b by blast
  have rc: "count_list (trace (runConditions run steps qc)) RunnerConstructed \<le> 1"
    using runCondition_enableIf [of qc run True steps] c by blast
  have rb': "readOnly (runCondition run False qb)" using rb by (simp add: run_def)
  have "enableIf qa = [] \<and> readOnly (runCondition run True qa) \<and> enableIf qb \<noteq> [] \<and>
        readOnly (runCondition run False qb) \<and>
        count_list (trace (runConditions run steps qc)) RunnerConstructed \<le> 1"
    using a a' ra b rb' rc by blast
  then show ?thesis unfolding qa_def qb_def qc_def run_def steps_def .
qed

section \<open>Properties of the dynamic matrix\<close>

lemma pushEmpty_eq:
  "pushEmpty rc xs = xs @ replicate (nat (rc - int (length xs))) []"
proof (induction rc xs rule: pushEmpty.induct)
  case (1 rc result)
  show ?case
  proof (cases "int (length result) < rc")
    case True
    have n: "nat (rc - int (length result)) = Suc (nat (rc - int (length (result @ [[]]))))"
      using True by simp
    have "pushEmpty rc result = pushEmpty rc (result @ [[]])"
      using True by (subst pushEmpty.simps) simp
    also have "\<dots> = (result @ [[]]) @ replicate (nat (rc - int (length (result @ [[]])))) []"
      using "1" True by simp
    also have "\<dots> = result @ replicate (nat (rc - int (length result))) []"
      unfolding n by simp
    finally show ?thesis .
  next
    case False
    then show ?thesis by (subst pushEmpty.simps) simp
  qed
qed

lemma length_pushEmpty: "int (length (pushEmpty rc xs)) = max rc (int (length xs))"
  by (simp add: pushEmpty_eq)

lemma length_createNewValue:
  "1 \<le> rowCount q \<Longrightarrow> int (length (createNewValue q v)) = rowCount q"
  by (auto simp: createNewValue_def Let_def length_pushEmpty splice_from_def splice_start_def
           split: jsval.splits)

lemma createNewValue_fixed:
  "int (length xs) = rowCount q \<Longrightarrow> createNewValue q (Val xs) = xs"
  by (simp add: createNewValue_def pushEmpty_eq)

text \<open>\<open>rowCount\<close> stays within its range: it starts at 2 and only the setter writes it.\<close>

lemma rowCount_in_range:
  "0 \<le> rowCount (newMatrix n) \<and> rowCount (newMatrix n) \<le> MaxRowCount"
  "0 \<le> rowCount q \<and> rowCount q \<le> MaxRowCount \<Longrightarrow>
     0 \<le> rowCount (set_rowCount v q) \<and> rowCount (set_rowCount v q) \<le> MaxRowCount"
  "0 \<le> rowCount q \<and> rowCount q \<le> MaxRowCount \<Longrightarrow>
     0 \<le> rowCount (addRow q) \<and> rowCount (addRow q) \<le> MaxRowCount"
  by (auto simp: newMatrix_def rowCount_def set_rowCount_def addRow_def MaxRowCount_def)

lemma generateRows_loop_eq:
  "generateRows_loop i val result q =
     (result @ map (\<lambda>k. \<lparr> index = rowCounter q + (k - i), rowValue = getRowValueByIndex val k \<rparr>)
                   [i..rowCount q - 1],
      q\<lparr>rowCounter := rowCounter q + max 0 (rowCount q - i)\<rparr>)"
proof (induction i val result q rule: generateRows_loop.induct)
  case (1 i val result q)
  show ?case
  proof (cases "i < rowCount q")
    case True
    let ?r = "\<lparr> index = rowCounter q, rowValue = getRowValueByIndex val i \<rparr>"
    let ?q' = "q\<lparr>rowCounter := rowCounter q + 1\<rparr>"
    have c: "createMatrixRow q (getRowValueByIndex val i) = (?r, ?q')"
      by (simp add: createMatrixRow_def)
    have rc: "rowCount ?q' = rowCount q" by (simp add: rowCount_def)
    have u: "[i..rowCount q - 1] = i # [i + 1..rowCount q - 1]"
      using True by (simp add: upto_rec1)
    have "generateRows_loop i val result q = generateRows_loop (i + 1) val (result @ [?r]) ?q'"
      using True c by (subst generateRows_loop.simps) simp
    also have "\<dots> = ((result @ [?r]) @
        map (\<lambda>k. \<lparr> index = rowCounter ?q' + (k - (i + 1)), rowValue = getRowValueByIndex val k \<rparr>)
            [i + 1..rowCount ?q' - 1],
        ?q'\<lparr>rowCounter := rowCounter ?q' + max 0 (rowCount ?q' - (i + 1))\<rparr>)"
      using "1" [OF True c [symmetric]] .
    also have "\<dots> = (result @ map (\<lambda>k. \<lparr> index = rowCounter q + (k - i), rowValue = getRowValueByIndex val k \<rparr>)
                   [i..rowCount q - 1],
      q\<lparr>rowCounter := rowCounter q + max 0 (rowCount q - i)\<rparr>)"
      using True unfolding rc u by (simp add: algebra_simps max_def)
    finally show ?thesis .
  next
    case False
    then show ?thesis by (subst generateRows_loop.simps) simp
  qed
qed

lemma get_value_setValueCore [simp]: "get_value (setValueCore q v) = v"
  by (simp add: get_value_def getValueCore_def setValueCore_def valueFromData_def split: option.splits)

lemma storeInPlace_frame [simp]:
  "rowCount (storeInPlace q val) = rowCount q"
  "rowCounter (storeInPlace q val) = rowCounter q"
  by (simp_all add: storeInPlace_def setValueCore_def rowCount_def split: option.splits)

lemma get_value_storeInPlace:
  "get_value (storeInPlace q val) = (if truthy (get_value q) then Val val else get_value q)"
  by (simp add: storeInPlace_def)

lemma get_value_rowCounter [simp]: "get_value (q\<lparr>rowCounter := c\<rparr>) = get_value q"
  by (simp add: get_value_def getValueCore_def split: option.splits)

lemma createNewValue_frame:
  "rowCount q' = rowCount q \<Longrightarrow> createNewValue q' v = createNewValue q v"
  by (simp add: createNewValue_def Let_def)

lemma generateRows_eq:
  "rowCount q \<noteq> 0 \<Longrightarrow>
   generateRows q =
     (map (\<lambda>k. \<lparr> index = rowCounter q + k,
                 rowValue = getRowValueByIndex (createNewValue q (get_value q)) k \<rparr>)
          [0..rowCount q - 1],
      (storeInPlace q (createNewValue q (get_value q)))
        \<lparr>rowCounter := rowCounter q + max 0 (rowCount q)\<rparr>)"
  by (simp add: generateRows_def Let_def generateRows_loop_eq)

lemma createNewValue_again:
  assumes "1 \<le> rowCount q"
  defines "val \<equiv> createNewValue q (get_value q)"
  defines "q1 \<equiv> (storeInPlace q val)\<lparr>rowCounter := rowCounter q + max 0 (rowCount q)\<rparr>"
  shows "createNewValue q1 (get_value q1) = val"
proof -
  have rc: "rowCount q1 = rowCount q"
    using storeInPlace_frame(1) [of q val] by (simp add: q1_def rowCount_def)
  have gv: "get_value q1 = (if truthy (get_value q) then Val val else get_value q)"
    by (simp add: q1_def get_value_storeInPlace)
  show ?thesis
  proof (cases "truthy (get_value q)")
    case True
    have "int (length val) = rowCount q1" using assms(1) rc by (simp add: val_def length_createNewValue)
    then show ?thesis using True gv by (simp add: createNewValue_fixed)
  next
    case False
    then show ?thesis using gv createNewValue_frame [OF rc] by (simp add: val_def)
  qed
qed

text \<open>
  Claim C8. For a matrix whose \<open>rowCount\<close> is not negative, \<open>generateRows\<close> called twice in
  a row gives two sequences of row models, both of length \<open>rowCount\<close>, with the same row
  values position by position, and every index stamped by the second call is larger than
  every index stamped by the first.
\<close>

theorem generateRows_twice:
  assumes "0 \<le> rowCount q"
  shows "int (length (fst (generateRows q))) = rowCount q \<and>
         length (fst (generateRows (snd (generateRows q)))) = length (fst (generateRows q)) \<and>
         map rowValue (fst (generateRows (snd (generateRows q)))) = map rowValue (fst (generateRows q)) \<and>
         (\<forall>r1 \<in> set (fst (generateRows q)). \<forall>r2 \<in> set (fst (generateRows (snd (generateRows q)))).
            index r1 < index r2)"
proof (cases "rowCount q = 0")
  case True
  then show ?thesis by (simp add: generateRows_def)
next
  case False
  with assms have pos: "1 \<le> rowCount q" by simp
  define val where "val = createNewValue q (get_value q)"
  define q1 where "q1 = (storeInPlace q val)\<lparr>rowCounter := rowCounter q + max 0 (rowCount q)\<rparr>"
  have g1: "generateRows q =
     (map (\<lambda>k. \<lparr> index = rowCounter q + k, rowValue = getRowValueByIndex val k \<rparr>) [0..rowCount q - 1], q1)"
    using False by (simp add: generateRows_eq val_def q1_def)
  have rc: "rowCount q1 = rowCount q"
    using storeInPlace_frame(1) [of q val] by (simp add: q1_def rowCount_def)
  have cnt: "rowCounter q1 = rowCounter q + rowCount q"
    using pos by (simp add: q1_def)
  have v1: "createNewValue q1 (get_value q1) = val"
    unfolding q1_def val_def using pos by (rule createNewValue_again)
  have g2: "fst (generateRows q1) =
     map (\<lambda>k. \<lparr> index = rowCounter q + rowCount q + k, rowValue = getRowValueByIndex val k \<rparr>) [0..rowCount q - 1]"
    using False by (simp add: generateRows_eq rc cnt v1)
  have len: "int (length [0..rowCount q - 1]) = rowCount q" using pos by simp
  have a: "int (length (fst (generateRows q))) = rowCount q"
    unfolding g1 fst_conv using len by simp
  have b: "length (fst (generateRows (snd (generateRows q)))) = length (fst (generateRows q))"
    unfolding g1 fst_conv snd_conv g2 by simp
  have c: "map rowValue (fst (generateRows (snd (generateRows q)))) = map rowValue (fst (generateRows q))"
    unfolding g1 fst_conv snd_conv g2 by (simp add: comp_def)
  have d: "\<forall>r1 \<in> set (fst (generateRows q)). \<forall>r2 \<in> set (fst (generateRows (snd (generateRows q)))).
            index r1 < index r2"
  proof (intro ballI)
    fix r1 r2
    assume "r1 \<in> set (fst (generateRows q))"
    then obtain j where j: "0 \<le> j" "j \<le> rowCount q - 1" "index r1 = rowCounter q + j"
      unfolding g1 fst_conv by auto
    assume "r2 \<in> set (fst (generateRows (snd (generateRows q))))"
    then obtain k where k: "0 \<le> k" "index r2 = rowCounter q + rowCount q + k"
      unfolding g1 fst_conv snd_conv g2 by auto
    show "index r1 < index r2" using j k by simp
  qed
  show ?thesis using a b c d by blast
qed

theorem generateRows_twice_witness:
  "0 \<le> rowCount ((newMatrix ''m'')\<lparr>questionValue := Val [[(''a'', ''1'')]]\<rparr>) \<and>
   length (fst (generateRows ((newMatrix ''m'')\<lparr>questionValue := Val [[(''a'', ''1'')]]\<rparr>))) = 2 \<and>
   length (fst (generateRows (snd (generateRows
       ((newMatrix ''m'')\<lparr>questionValue := Val [[(''a'', ''1'')]]\<rparr>))))) = 2 \<and>
   map rowValue (fst (generateRows (snd (generateRows
       ((newMatrix ''m'')\<lparr>questionValue := Val [[(''a'', ''1'')]]\<rparr>))))) =
   map rowValue (fst (generateRows ((newMatrix ''m'')\<lparr>questionValue := Val [[(''a'', ''1'')]]\<rparr>))) \<and>
   index (hd (fst (generateRows ((newMatrix ''m'')\<lparr>questionValue := Val [[(''a'', ''1'')]]\<rparr>)))) <
   index (hd (fst (generateRows (snd (generateRows
       ((newMatrix ''m'')\<lparr>questionValue := Val [[(''a'', ''1'')]]\<rparr>))))))"
proof -
  define q where "q = (newMatrix ''m'')\<lparr>questionValue := Val [[(''a'', ''1'')]]\<rparr>"
  define rows1 where "rows1 = fst (generateRows q)"
  define rows2 where "rows2 = fst (generateRows (snd (generateRows q)))"
  have r: "rowCount q = 2" by (simp add: q_def rowCount_def newMatrix_def)
  then have h: "0 \<le> rowCount q" by simp
  note t = generateRows_twice [OF h, folded rows1_def rows2_def]
  from t r have "int (length rows1) = 2" by simp
  then have l1: "length rows1 = 2" by simp
  with t have l2: "length rows2 = 2" by simp
  from t have v: "map rowValue rows2 = map rowValue rows1" by blast
  from l1 l2 have "rows1 \<noteq> []" "rows2 \<noteq> []" by auto
  then have "hd rows1 \<in> set rows1" "hd rows2 \<in> set rows2" by simp_all
  with t have i: "index (hd rows1) < index (hd rows2)" by blast
  have "0 \<le> rowCount q \<and> length rows1 = 2 \<and> length rows2 = 2 \<and>
        map rowValue rows2 = map rowValue rows1 \<and> index (hd rows1) < index (hd rows2)"
    using h l1 l2 v i by blast
  then show ?thesis unfolding rows1_def rows2_def q_def .
qed

lemma setNewValue_matrix_frame [simp]:
  "rowCountValue (setNewValue q v) = rowCountValue q"
  "rowCounter (setNewValue q v) = rowCounter q"
  by (simp_all add: setNewValue_def onValueChanged_def setNewValueInData_def setValueCore_def
           split: option.splits)


lemma get_value_flag [simp]:
  "get_value (q\<lparr>isvalueChangedCallbackFiring := b\<rparr>) = get_value q"
  by (simp add: get_value_def getValueCore_def split: option.splits)



lemma storeInPlace_question_frame [simp]:
  "valueChangedCallback (storeInPlace q val) = valueChangedCallback q"
  "isValueChangedInSurvey (storeInPlace q val) = isValueChangedInSurvey q"
  "rowCountValue (storeInPlace q val) = rowCountValue q"
  by (simp_all add: storeInPlace_def setValueCore_def split: option.splits)


text \<open>
  Claim C10. A freshly constructed dynamic matrix question has \<open>rowCount\<close> 2, and its first
  \<open>generateRows\<close> call produces two row models.
\<close>

theorem newMatrix_rowCount:
  "rowCount (newMatrix n) = 2 \<and> length (fst (generateRows (newMatrix n))) = 2"
proof -
  have r: "rowCount (newMatrix n) = 2" by (simp add: rowCount_def newMatrix_def)
  have "int (length (fst (generateRows (newMatrix n)))) = 2"
    using r by (simp add: generateRows_eq)
  then show ?thesis using r by simp
qed

text \<open>
  Claim C5. Assigning a value below 0 or above \<open>MaxRowCount\<close>, which is 100, to \<open>rowCount\<close>
  leaves the whole question as it was: no field changes and nothing is added to the trace.
  So \<open>addRow\<close> at \<open>rowCount = 100\<close> changes nothing. A value from 0 to 100 is stored, and
  only \<open>rowCountValue\<close> changes.
\<close>

theorem rowCount_setter_range:
  "(v < 0 \<or> v > 100 \<longrightarrow> set_rowCount v q = q) \<and>
   (rowCount q = 100 \<longrightarrow> addRow q = q) \<and>
   (0 \<le> v \<and> v \<le> 100 \<longrightarrow>
      rowCount (set_rowCount v q) = v \<and> set_rowCount v q = q\<lparr>rowCountValue := v\<rparr>)"
  by (auto simp: set_rowCount_def addRow_def rowCount_def MaxRowCount_def)

theorem rowCount_setter_range_witness:
  "set_rowCount (- 1) (newMatrix ''m'') = newMatrix ''m'' \<and>
   set_rowCount 101 (newMatrix ''m'') = newMatrix ''m'' \<and>
   rowCount (set_rowCount 100 (newMatrix ''m'')) = 100 \<and>
   rowCount ((newMatrix ''m'')\<lparr>rowCountValue := 100\<rparr>) = 100 \<and>
   addRow ((newMatrix ''m'')\<lparr>rowCountValue := 100\<rparr>) = (newMatrix ''m'')\<lparr>rowCountValue := 100\<rparr>"
proof -
  define m where "m = newMatrix ''m''"
  define m100 where "m100 = (newMatrix ''m'')\<lparr>rowCountValue := 100\<rparr>"
  have r: "rowCount m100 = 100"
    by (simp add: m100_def rowCount_def)
  have a: "set_rowCount (- 1) m = m"
    using rowCount_setter_range [of "- 1" m] by simp
  have b: "set_rowCount 101 m = m"
    using rowCount_setter_range [of 101 m] by simp
  have "(0::int) \<le> 100 \<and> (100::int) \<le> 100" by simp
  then have c: "rowCount (set_rowCount 100 m) = 100"
    using rowCount_setter_range [of 100 m] by blast
  have d: "addRow m100 = m100"
    using rowCount_setter_range [of 0 m100] r by blast
  show ?thesis using a b c d r unfolding m_def m100_def by blast
qed

text \<open>
  Claim C9. When the backing value is null or undefined and the index is within
  \<open>[0, rowCount)\<close>, \<open>removeRow\<close> only decrements \<open>rowCount\<close>: the state it returns is the
  old one with \<open>rowCountValue\<close> one less, so the backing value is untouched, nothing is
  normalised and nothing is notified. \<open>rowCount\<close> is taken within its range, as the setter
  keeps it.
\<close>

theorem removeRow_absent_value:
  assumes "get_value q = Null \<or> get_value q = Undefined"
    and "0 \<le> idx" and "idx < rowCount q" and "rowCount q \<le> MaxRowCount"
  shows "removeRow fuel idx q = Some (q\<lparr>rowCountValue := rowCount q - 1\<rparr>)"
  using assms by (auto simp: removeRow_def truthy_def set_rowCount_def rowCount_def MaxRowCount_def)

theorem removeRow_absent_value_witness:
  "get_value (newMatrix ''m'') = Undefined \<and>
   removeRow 0 1 (newMatrix ''m'') = Some ((newMatrix ''m'')\<lparr>rowCountValue := 1\<rparr>)"
proof -
  have h1: "get_value (newMatrix ''m'') = Null \<or> get_value (newMatrix ''m'') = Undefined"
    and u: "get_value (newMatrix ''m'') = Undefined"
    by (simp_all add: get_value_def getValueCore_def valueFromData_def newMatrix_def)
  have r: "rowCount (newMatrix ''m'') = 2" by (simp add: rowCount_def newMatrix_def)
  have h2: "(0::int) \<le> 1" and h3: "1 < rowCount (newMatrix ''m'')"
    and h4: "rowCount (newMatrix ''m'') \<le> MaxRowCount"
    using r by (simp_all add: MaxRowCount_def)
  show ?thesis using u r removeRow_absent_value [OF h1 h2 h3 h4, of 0] by simp
qed

text \<open>
  Claim C1. \<open>createNewValue\<close> at the inputs where it departs from the claim. With
  \<open>rowCount = 2\<close> and three rows, \<open>splice(rowCount - 1)\<close> keeps one row only and the loop
  pads with an empty object: the row at position 1 is lost, where the claim keeps the first
  two rows. With \<open>rowCount = 0\<close> and three rows, \<open>splice(-1)\<close> removes the last row only and
  two rows are returned, where the claim returns none.
\<close>

theorem createNewValue_drops_row:
  "createNewValue (newMatrix ''m'')
     (Val [[(''a'', ''1'')], [(''b'', ''2'')], [(''c'', ''3'')]]) = [[(''a'', ''1'')], []] \<and>
   createNewValue (set_rowCount 0 (newMatrix ''m''))
     (Val [[(''a'', ''1'')], [(''b'', ''2'')], [(''c'', ''3'')]]) = [[(''a'', ''1'')], [(''b'', ''2'')]]"
  by (simp add: createNewValue_def newMatrix_def rowCount_def set_rowCount_def MaxRowCount_def
        splice_from_def splice_start_def pushEmpty_eq)



lemma get_value_rowCountValue [simp]: "get_value (q\<lparr>rowCountValue := c\<rparr>) = get_value q"
  by (simp add: get_value_def getValueCore_def split: option.splits)





end
